theory Spec2Isabelle
  imports Complex_Main
begin

section \<open>Python values, records and errors\<close>

text \<open>
  A record read from the source is a Python dict: an ordered mapping from column names to
  scalar values. It is modelled as an association list in insertion order; a dict has no
  duplicate keys, which theorems that depend on it state as \<open>distinct (map fst r)\<close>.
  The scalars are \<open>None\<close>, booleans, integers and strings; \<open>PObj t s\<close> stands for any other
  scalar of the database driver (a float, a Decimal, a date), described by its truth value
  \<open>t\<close> and by the text \<open>s\<close> that \<open>str()\<close> gives for it.
\<close>

datatype pyval = PNone | PBool bool | PInt int | PStr string | PObj bool string

type_synonym row = "(string \<times> pyval) list"

datatype error = StopIteration | ValueError | AttributeError | TypeError

text \<open>Truth value of a scalar, as \<open>if val:\<close> tests it.\<close>

fun truthy :: "pyval \<Rightarrow> bool" where
  "truthy PNone = False"
| "truthy (PBool b) = b"
| "truthy (PInt i) = (i \<noteq> 0)"
| "truthy (PStr s) = (s \<noteq> [])"
| "truthy (PObj t s) = t"

definition digit_char :: "nat \<Rightarrow> char" where
  "digit_char d = ''0123456789'' ! d"

fun string_of_nat :: "nat \<Rightarrow> string" where
  "string_of_nat n =
     (if n < 10 then [digit_char n] else string_of_nat (n div 10) @ [digit_char (n mod 10)])"

declare string_of_nat.simps [simp del]

text \<open>\<open>str(x)\<close>, which is also what \<open>"{}".format(x)\<close> prints.\<close>

fun py_str :: "pyval \<Rightarrow> string" where
  "py_str PNone = ''None''"
| "py_str (PBool b) = (if b then ''True'' else ''False'')"
| "py_str (PInt i) = (if i < 0 then ''-'' @ string_of_nat (nat (- i)) else string_of_nat (nat i))"
| "py_str (PStr s) = s"
| "py_str (PObj t s) = s"

text \<open>\<open>delimiter.join(xs)\<close>\<close>

fun join :: "string \<Rightarrow> string list \<Rightarrow> string" where
  "join d [] = []"
| "join d [x] = x"
| "join d (x # y # ys) = x @ d @ join d (y # ys)"

text \<open>\<open>s.split(sep)\<close> for a separator of one character: never the empty list.\<close>

fun split_on :: "char \<Rightarrow> string \<Rightarrow> string list" where
  "split_on d [] = [[]]"
| "split_on d (c # cs) =
     (if c = d then [] # split_on d cs
      else (case split_on d cs of [] \<Rightarrow> [[c]] | w # ws \<Rightarrow> (c # w) # ws))"

text \<open>
  The characters that \<open>\s\<close> matches in a \<open>str\<close> pattern, among the code points below 256:
  tab to carriage return, the separators 28 to 31, the space, NEL (133) and the
  no-break space (160).
\<close>

definition is_space :: "char \<Rightarrow> bool" where
  "is_space c = (let n = (of_char c :: nat) in
     (9 \<le> n \<and> n \<le> 13) \<or> (28 \<le> n \<and> n \<le> 32) \<or> n = 133 \<or> n = 160)"

text \<open>\<open>re.sub("\s+", "", s)\<close>: every maximal run of whitespace is replaced by nothing.\<close>

function re_sub_ws :: "string \<Rightarrow> string" where
  "re_sub_ws [] = []"
| "re_sub_ws (c # cs) =
     (if is_space c then re_sub_ws (dropWhile is_space cs) else c # re_sub_ws cs)"
  by pat_completeness auto
termination
  by (relation "measure length") (auto simp: length_dropWhile_le less_Suc_eq_le)

text \<open>\<open>s.encode('utf-8')\<close> for code points below 256: one byte below 128, two bytes above.\<close>

definition encode_char :: "char \<Rightarrow> string" where
  "encode_char c = (let n = (of_char c :: nat) in
     if n < 128 then [c] else [char_of (192 + n div 64), char_of (128 + n mod 64)])"

definition encode_utf8 :: "string \<Rightarrow> string" where
  "encode_utf8 s = concat (map encode_char s)"

text \<open>\<open>r.keys()\<close> and \<open>r[k]\<close>; \<open>r[k]\<close> raises KeyError exactly where the result is \<open>None\<close>.\<close>

definition keys :: "row \<Rightarrow> string list" where
  "keys r = map fst r"

definition dict_getitem :: "row \<Rightarrow> string \<Rightarrow> pyval option" where
  "dict_getitem r k = map_of r k"

text \<open>\<open>rc.pop(k)\<close>: the mapping without the key.\<close>

definition dict_pop :: "string \<Rightarrow> row \<Rightarrow> row" where
  "dict_pop k rc = filter (\<lambda>kv. fst kv \<noteq> k) rc"

section \<open>The collaborators: the streaming source and the datasketch library\<close>

text \<open>
  Modelled from the spec: \<open>PGRecordIterator\<close> (module \<open>sql.record.pgrecord_iterator\<close>), the
  streaming reader over the query's rows. The connection is the function from a query to
  the rows it returns; every \<open>iter()\<close> on the reader opens the cursor anew, at a fresh
  position, under the reader's current cursor name.
\<close>

record pg_record_iterator =
  pg_conn :: "string \<Rightarrow> row list"
  pg_query :: string
  pg_itersize :: int
  pg_name :: string

definition pg_iter :: "pg_record_iterator \<Rightarrow> row list" where
  "pg_iter itcls = pg_conn itcls (pg_query itcls)"

definition set_cursor_name :: "string \<Rightarrow> pg_record_iterator \<Rightarrow> pg_record_iterator" where
  "set_cursor_name cname itcls = itcls\<lparr>pg_name := cname\<rparr>"

text \<open>
  The datasketch library is outside the repository. The model follows the library's source
  for what the repository calls, and takes as parameters what the library computes
  elsewhere: \<open>hashfunc\<close>, the 32-bit hash of a byte string; the random generator, where
  \<open>RandomState seed\<close> is a new generator made from a seed and \<open>randint lo hi g\<close> draws
  a number from \<open>lo\<close> up to \<open>hi - 1\<close> and gives the generator after the draw; \<open>new_lsh\<close>,
  what the constructor of an index does after it has checked its arguments (it chooses
  the bands and opens the storage, and may raise); \<open>lsh_insert\<close>, a session's \<open>insert\<close>,
  which raises on a key the index already holds; and \<open>lsh_query\<close>, the index's \<open>query\<close>.
  The type \<open>'gen\<close> of generators and the type \<open>'idx\<close> of indexes are left open. A signature
  is passed to the index as the list of its hash values, which is what the index reads.
  A query is taken not to raise, and so is \<open>MinHash(num_perm)\<close>, which the library refuses
  only beyond \<open>2 ^ 32\<close> permutations.
\<close>

record ('gen, 'idx) datasketch =
  hashfunc :: "string \<Rightarrow> nat"
  RandomState :: "nat \<Rightarrow> 'gen"
  randint :: "nat \<Rightarrow> nat \<Rightarrow> 'gen \<Rightarrow> nat \<times> 'gen"
  new_lsh :: "rat \<Rightarrow> nat \<Rightarrow> (string \<times> string) list \<Rightarrow> error + 'idx"
  lsh_insert :: "pyval \<Rightarrow> nat list \<Rightarrow> 'idx \<Rightarrow> error + 'idx"
  lsh_query :: "nat list \<Rightarrow> 'idx \<Rightarrow> pyval list"

definition mersenne_prime :: nat where
  "mersenne_prime = 2 ^ 61 - 1"

definition max_hash :: nat where
  "max_hash = 2 ^ 32 - 1"

text \<open>
  \<open>_init_permutations\<close>: a generator made from the seed gives, for each slot in turn, the
  multiplier \<open>a\<close> (from 1) and the offset \<open>b\<close> (from 0) of the slot's permutation.
\<close>

fun draw_permutations :: "('gen, 'idx) datasketch \<Rightarrow> nat \<Rightarrow> 'gen \<Rightarrow> (nat \<times> nat) list" where
  "draw_permutations L 0 gen = []"
| "draw_permutations L (Suc n) gen =
     (case randint L 1 mersenne_prime gen of
        (a, gen1) \<Rightarrow>
          (case randint L 0 mersenne_prime gen1 of
             (b, gen2) \<Rightarrow> (a, b) # draw_permutations L n gen2))"

definition init_permutations :: "('gen, 'idx) datasketch \<Rightarrow> nat \<Rightarrow> nat \<Rightarrow> (nat \<times> nat) list" where
  "init_permutations L seed' n = draw_permutations L n (RandomState L seed')"

record minhash =
  seed :: nat
  hashvalues :: "nat list"
  permutations :: "(nat \<times> nat) list"

text \<open>
  \<open>MinHash(num_perm, seed)\<close>: every slot holds the sentinel, and the permutations are drawn
  from the seed. The repository calls \<open>MinHash(num_perm)\<close>, where the seed is the default 1.
\<close>

definition MinHash :: "('gen, 'idx) datasketch \<Rightarrow> nat \<Rightarrow> nat \<Rightarrow> minhash" where
  "MinHash L n seed' =
     \<lparr> seed = seed', hashvalues = replicate n max_hash, permutations = init_permutations L seed' n \<rparr>"

text \<open>
  The permuted hash of a slot, \<open>bitwise_and((a * hv + b) % mersenne_prime, max_hash)\<close> on
  unsigned 64-bit numbers: the sum wraps at \<open>2 ^ 64\<close>, and the mask keeps the low 32 bits.
\<close>

definition permuted_hash :: "nat \<Rightarrow> nat \<Rightarrow> nat \<Rightarrow> nat" where
  "permuted_hash a b hv = (((a * hv + b) mod 2 ^ 64) mod mersenne_prime) mod 2 ^ 32"

text \<open>\<open>m.update(b)\<close>: each slot keeps the minimum of its value and the permuted hash.\<close>

definition update :: "('gen, 'idx) datasketch \<Rightarrow> string \<Rightarrow> minhash \<Rightarrow> minhash" where
  "update L b m =
     m\<lparr>hashvalues :=
         map2 (\<lambda>(a, b') h. min (permuted_hash a b' (hashfunc L b)) h) (permutations m) (hashvalues m)\<rparr>"

text \<open>
  \<open>MinHashLSH(threshold, num_perm, storage_config)\<close>: the constructor raises \<open>ValueError\<close>
  for a threshold outside \<open>[0, 1]\<close> and for fewer than two permutations, before anything
  else.
\<close>

definition MinHashLSH ::
  "('gen, 'idx) datasketch \<Rightarrow> rat \<Rightarrow> nat \<Rightarrow> (string \<times> string) list \<Rightarrow> error + 'idx" where
  "MinHashLSH L threshold' num_perm' storage_config' =
     (if threshold' > 1 \<or> threshold' < 0 then Inl ValueError
      else if num_perm' < 2 then Inl ValueError
      else new_lsh L threshold' num_perm' storage_config')"

section \<open>The blocking record iterator\<close>

record 'idx blocking_record_iterator =
  id_name :: string
  cursor_name :: string
  conn :: "string \<Rightarrow> row list"
  query :: string
  session_size :: int
  threshold :: rat
  storage_config :: "(string \<times> string) list option"
  record_it :: "pg_record_iterator option"
  lsh :: "'idx option"
  is_text :: bool
  is_letter :: bool
  num_perm :: nat
  curr_it :: "row list option"

text \<open>
  \<open>__init__\<close> stores its arguments and checks none of them; \<open>is_letter\<close>, \<open>is_text\<close>,
  \<open>session_size\<close> and \<open>num_perm\<close> default to \<open>True\<close>, \<open>False\<close>, 2000 and 128.
\<close>

definition init ::
  "string \<Rightarrow> string \<Rightarrow> (string \<Rightarrow> row list) \<Rightarrow> string \<Rightarrow> rat \<Rightarrow> (string \<times> string) list option \<Rightarrow>
   bool \<Rightarrow> bool \<Rightarrow> int \<Rightarrow> nat \<Rightarrow> 'idx blocking_record_iterator" where
  "init id_name' cursor_name' conn' query' threshold' storage_config' is_letter' is_text'
        session_size' num_perm' =
     \<lparr> id_name = id_name', cursor_name = cursor_name', conn = conn', query = query',
       session_size = session_size', threshold = threshold', storage_config = storage_config',
       record_it = None, lsh = None, is_text = is_text', is_letter = is_letter',
       num_perm = num_perm', curr_it = None \<rparr>"

subsection \<open>Shingles\<close>

text \<open>The loop of \<open>_record_to_string\<close>: the values that are true, in key order.\<close>

fun record_to_string_loop :: "row \<Rightarrow> string list \<Rightarrow> pyval list \<Rightarrow> pyval list" where
  "record_to_string_loop r [] vals = vals"
| "record_to_string_loop r (k # ks) vals =
     (case dict_getitem r k of
        None \<Rightarrow> record_to_string_loop r ks vals
      | Some val \<Rightarrow> record_to_string_loop r ks (if truthy val then vals @ [val] else vals))"

definition record_to_string :: "'idx blocking_record_iterator \<Rightarrow> row \<Rightarrow> string \<Rightarrow> string" where
  "record_to_string self r delimiter =
     (let ks = keys r;
          ks = (if id_name self \<in> set ks then remove1 (id_name self) ks else ks);
          vals = record_to_string_loop r ks []
      in join delimiter (map py_str vals))"

text \<open>
  The loop of \<open>_get_record_text\<close>. The branch taken while \<open>txt\<close> is still \<open>None\<close> formats
  \<open>txt\<close> itself with the value; once \<open>txt\<close> is set, the next value replaces it.
\<close>

fun get_record_text_loop :: "row \<Rightarrow> string list \<Rightarrow> pyval \<Rightarrow> pyval" where
  "get_record_text_loop rc [] txt = txt"
| "get_record_text_loop rc (key # ks) txt =
     (case dict_getitem rc key of
        None \<Rightarrow> get_record_text_loop rc ks txt
      | Some tval \<Rightarrow>
          (if txt \<noteq> PNone then get_record_text_loop rc ks tval
           else get_record_text_loop rc ks (PStr (py_str txt @ '' '' @ py_str tval))))"

definition get_record_text :: "'idx blocking_record_iterator \<Rightarrow> row \<Rightarrow> pyval" where
  "get_record_text self r =
     (let rc = r;
          rc = (if id_name self \<in> set (keys rc) then dict_pop (id_name self) rc else rc)
      in get_record_text_loop rc (keys rc) PNone)"

definition split_str_to_chars :: "string \<Rightarrow> string list" where
  "split_str_to_chars val = (if val \<noteq> [] then map (\<lambda>c. [c]) val else [])"

definition split_record_words :: "'idx blocking_record_iterator \<Rightarrow> row \<Rightarrow> string list" where
  "split_record_words self val = split_on CHR '' '' (record_to_string self val '' '')"

text \<open>\<open>x.trim()\<close>: a Python \<open>str\<close> has no attribute \<open>trim\<close>, the call raises.\<close>

definition str_trim :: "string \<Rightarrow> error + string" where
  "str_trim x = Inl AttributeError"

text \<open>
  The comprehension of the text branch,
  \<open>[x for x in parts if x is not None and len(x.trim()) > 0]\<close>.
\<close>

fun text_parts :: "string list \<Rightarrow> error + string list" where
  "text_parts [] = Inr []"
| "text_parts (x # xs) =
     (case str_trim x of
        Inl e \<Rightarrow> Inl e
      | Inr t \<Rightarrow>
          (case text_parts xs of
             Inl e \<Rightarrow> Inl e
           | Inr ys \<Rightarrow> Inr (if length t > 0 then x # ys else ys)))"

text \<open>
  \<open>_get_shingle\<close>. In the text branch \<open>txt.split\<close> exists only when \<open>txt\<close> is a \<open>str\<close>.
\<close>

definition get_shingle :: "'idx blocking_record_iterator \<Rightarrow> row \<Rightarrow> error + string list" where
  "get_shingle self r =
     (if is_letter self then
        (let rstr = record_to_string self r [];
             rstr = re_sub_ws rstr
         in Inr (split_str_to_chars rstr))
      else if is_text self then
        (case get_record_text self r of
           PStr txt \<Rightarrow> text_parts (split_on CHR '' '' txt)
         | _ \<Rightarrow> Inl AttributeError)
      else Inr (split_record_words self r))"

subsection \<open>Signing\<close>

definition get_min_hash ::
  "('gen, 'idx) datasketch \<Rightarrow> 'idx blocking_record_iterator \<Rightarrow> row \<Rightarrow> error + nat list" where
  "get_min_hash L self r =
     (case get_shingle self r of
        Inl e \<Rightarrow> Inl e
      | Inr cset \<Rightarrow>
          Inr (hashvalues (fold (\<lambda>c m. update L (encode_utf8 c) m) cset
                             (MinHash L (num_perm self) 1))))"

subsection \<open>The build phase\<close>

text \<open>
  The body of the loop of \<open>_create_hashes\<close> for one record \<open>r\<close>, on the open session: the
  index after it, or the exception that leaves the loop.
\<close>

definition create_hashes_body ::
  "('gen, 'idx) datasketch \<Rightarrow> 'idx blocking_record_iterator \<Rightarrow> row \<Rightarrow> 'idx \<Rightarrow> error + 'idx" where
  "create_hashes_body L self r session =
     (if id_name self \<in> set (keys r) then
        (case dict_getitem r (id_name self) of
           None \<Rightarrow> Inr session
         | Some key_val \<Rightarrow>
             (case get_min_hash L self r of
                Inl e \<Rightarrow> Inl e
              | Inr m \<Rightarrow> lsh_insert L key_val m session))
      else Inr session)"

text \<open>
  The loop \<open>while i < self.session_size and run\<close>. The iterator is the list of the rows it
  still has; \<open>next(it)\<close> on the empty list raises \<open>StopIteration\<close>, which the loop catches
  by clearing \<open>run\<close>. The result is the value returned (or the exception raised), the
  iterator and the index as the loop leaves them.
\<close>

function create_hashes_loop ::
  "('gen, 'idx) datasketch \<Rightarrow> 'idx blocking_record_iterator \<Rightarrow> int \<Rightarrow> bool \<Rightarrow> row list \<Rightarrow> 'idx \<Rightarrow>
   (error + bool) \<times> row list \<times> 'idx" where
  "create_hashes_loop L self i run it session =
     (if i < session_size self \<and> run then
        (case it of
           [] \<Rightarrow> create_hashes_loop L self i False [] session
         | r # it' \<Rightarrow>
             (case create_hashes_body L self r session of
                Inl e \<Rightarrow> (Inl e, it', session)
              | Inr session' \<Rightarrow> create_hashes_loop L self (i + 1) run it' session'))
      else (Inr run, it, session))"
  by pat_completeness auto
termination
  by (relation "measure (\<lambda>(L, self, i, run, it, session). 2 * length it + (if run then 1 else 0))")
     auto

declare create_hashes_loop.simps [simp del]

definition create_hashes ::
  "('gen, 'idx) datasketch \<Rightarrow> 'idx blocking_record_iterator \<Rightarrow> row list \<Rightarrow>
   (error + bool) \<times> row list \<times> 'idx blocking_record_iterator" where
  "create_hashes L self it =
     (case lsh self of
        None \<Rightarrow> (Inl AttributeError, it, self)
      | Some session \<Rightarrow>
          (case create_hashes_loop L self 0 True it session of
             (res, it', session') \<Rightarrow> (res, it', self\<lparr>lsh := Some session'\<rparr>)))"

subsection \<open>Setting up and iterating\<close>

text \<open>\<open>if self.__storage_config:\<close> is false for \<open>None\<close> and for the empty dict.\<close>

definition storage_supplied :: "(string \<times> string) list option \<Rightarrow> bool" where
  "storage_supplied sc = (case sc of None \<Rightarrow> False | Some d \<Rightarrow> d \<noteq> [])"

definition setup_lsh ::
  "('gen, 'idx) datasketch \<Rightarrow> 'idx blocking_record_iterator \<Rightarrow> error + 'idx blocking_record_iterator" where
  "setup_lsh L self =
     (case storage_config self of
        None \<Rightarrow> Inl ValueError
      | Some d \<Rightarrow>
          (if d \<noteq> [] then
             (case MinHashLSH L (threshold self) (num_perm self) d of
                Inl e \<Rightarrow> Inl e
              | Inr idx \<Rightarrow> Inr (self\<lparr>lsh := Some idx\<rparr>))
           else Inl ValueError))"

definition get_iter :: "'idx blocking_record_iterator \<Rightarrow> pg_record_iterator \<times> row list" where
  "get_iter self =
     (let it = \<lparr> pg_conn = conn self, pg_query = query self, pg_itersize = session_size self,
                 pg_name = cursor_name self \<rparr>
      in (it, pg_iter it))"

text \<open>\<open>__iter__\<close>: the value is \<open>self\<close>, so the result is the exception, if any, and the state.\<close>

definition iter ::
  "('gen, 'idx) datasketch \<Rightarrow> 'idx blocking_record_iterator \<Rightarrow> error option \<times> 'idx blocking_record_iterator" where
  "iter L self =
     (if curr_it self = None then
        (case setup_lsh L self of
           Inl e \<Rightarrow> (Some e, self)
         | Inr self1 \<Rightarrow>
             (case get_iter self1 of
                (itcls, it) \<Rightarrow>
                  (case create_hashes L self1 it of
                     (Inl e, it', self2) \<Rightarrow> (Some e, self2)
                   | (Inr run, it', self2) \<Rightarrow>
                       (let cname = cursor_name self2 @ ''_matches'';
                            itcls = set_cursor_name cname itcls;
                            it = pg_iter itcls
                        in (None, self2\<lparr>curr_it := Some it, record_it := Some itcls\<rparr>)))))
      else (None, self))"

text \<open>
  \<open>__next__\<close>. \<open>next(self.__curr_it, None)\<close> needs an iterator (\<open>TypeError\<close> on \<open>None\<close>) and
  gives \<open>None\<close> once it is exhausted; \<open>if nrow:\<close> is false for \<open>None\<close> and for an empty
  record.
\<close>

definition next_pair ::
  "('gen, 'idx) datasketch \<Rightarrow> 'idx blocking_record_iterator \<Rightarrow>
   (error + row \<times> pyval list) \<times> 'idx blocking_record_iterator" where
  "next_pair L self =
     (case curr_it self of
        None \<Rightarrow> (Inl TypeError, self)
      | Some [] \<Rightarrow> (Inl StopIteration, self)
      | Some (nrow # rest) \<Rightarrow>
          (let self' = self\<lparr>curr_it := Some rest\<rparr> in
           if nrow \<noteq> [] then
             (case get_min_hash L self' nrow of
                Inl e \<Rightarrow> (Inl e, self')
              | Inr m \<Rightarrow>
                  (case lsh self' of
                     None \<Rightarrow> (Inl AttributeError, self')
                   | Some idx \<Rightarrow> (Inr (nrow, lsh_query L m idx), self')))
           else (Inl StopIteration, self')))"

text \<open>
  The caller's side of the iteration protocol, \<open>for pair in iterator\<close>: pull until a pull
  raises, collecting the pairs. The result is the pairs, the exception that ended the loop
  (\<open>StopIteration\<close> for a normal end) and the final state.
\<close>

function drain ::
  "('gen, 'idx) datasketch \<Rightarrow> 'idx blocking_record_iterator \<Rightarrow>
   (row \<times> pyval list) list \<times> error \<times> 'idx blocking_record_iterator" where
  "drain L self =
     (case next_pair L self of
        (Inl e, self') \<Rightarrow> ([], e, self')
      | (Inr p, self') \<Rightarrow> (case drain L self' of (ps, e, self'') \<Rightarrow> (p # ps, e, self'')))"
  by pat_completeness auto
termination
  by (relation "measure (\<lambda>(L, self). case curr_it self of None \<Rightarrow> 0 | Some it \<Rightarrow> length it)")
     (auto simp: next_pair_def Let_def split: option.splits list.splits if_splits sum.splits)

declare drain.simps [simp del]

section \<open>What the specification says, for comparison\<close>

text \<open>The values of the fields other than the identifier, in field order.\<close>

definition non_id_values :: "string \<Rightarrow> row \<Rightarrow> pyval list" where
  "non_id_values idn r = map snd (filter (\<lambda>kv. fst kv \<noteq> idn) r)"

text \<open>
  The specification's character shingles: every non-identifier value cast to a string, the
  casts concatenated without a delimiter, whitespace removed, the characters of the rest.
  \<open>None\<close> is given no text, since the specification has a record of \<open>None\<close> fields yield
  no shingle.
\<close>

definition spec_cast :: "pyval \<Rightarrow> string" where
  "spec_cast v = (case v of PNone \<Rightarrow> [] | _ \<Rightarrow> py_str v)"

definition spec_character_shingles :: "string \<Rightarrow> row \<Rightarrow> string set" where
  "spec_character_shingles idn r =
     set (map (\<lambda>c. [c]) (filter (\<lambda>c. \<not> is_space c) (concat (map spec_cast (non_id_values idn r)))))"

text \<open>A field is blank when it is \<open>None\<close> or a string of whitespace only.\<close>

definition blank :: "pyval \<Rightarrow> bool" where
  "blank v = (case v of PNone \<Rightarrow> True | PStr s \<Rightarrow> list_all is_space s | _ \<Rightarrow> False)"

text \<open>
  The specification's tokenized shingles, for a tokenizer \<open>tok\<close>: the non-identifier values
  joined by single spaces, tokenized, the empty tokens dropped.
\<close>

definition spec_tokenized_shingles :: "(string \<Rightarrow> string list) \<Rightarrow> string \<Rightarrow> row \<Rightarrow> string list" where
  "spec_tokenized_shingles tok idn r =
     filter (\<lambda>x. x \<noteq> []) (tok (join '' '' (map py_str (non_id_values idn r))))"

text \<open>The shingles of the two strategies that return, and the signature of a shingle list.\<close>

definition shingles :: "'idx blocking_record_iterator \<Rightarrow> row \<Rightarrow> string list" where
  "shingles self r =
     (if is_letter self then split_str_to_chars (re_sub_ws (record_to_string self r []))
      else split_record_words self r)"

definition sign :: "('gen, 'idx) datasketch \<Rightarrow> nat \<Rightarrow> string list \<Rightarrow> nat list" where
  "sign L n cset = hashvalues (fold (\<lambda>c m. update L (encode_utf8 c) m) cset (MinHash L n 1))"

text \<open>The text branch of \<open>_get_shingle\<close>, on its own.\<close>

definition text_shingles :: "'idx blocking_record_iterator \<Rightarrow> row \<Rightarrow> error + string list" where
  "text_shingles self r =
     (case get_record_text self r of
        PStr txt \<Rightarrow> text_parts (split_on CHR '' '' txt)
      | _ \<Rightarrow> Inl AttributeError)"

text \<open>
  What one record of the build batch does to the index, and what a batch does: the
  records are indexed in order, up to the first insert that raises.
\<close>

definition index_record ::
  "('gen, 'idx) datasketch \<Rightarrow> 'idx blocking_record_iterator \<Rightarrow> row \<Rightarrow> 'idx \<Rightarrow> error + 'idx" where
  "index_record L self r idx =
     (case dict_getitem r (id_name self) of
        None \<Rightarrow> Inr idx
      | Some key_val \<Rightarrow> lsh_insert L key_val (sign L (num_perm self) (shingles self r)) idx)"

fun index_records ::
  "('gen, 'idx) datasketch \<Rightarrow> 'idx blocking_record_iterator \<Rightarrow> row list \<Rightarrow> 'idx \<Rightarrow> error + 'idx" where
  "index_records L self [] idx = Inr idx"
| "index_records L self (r # rs) idx =
     (case index_record L self r idx of
        Inl e \<Rightarrow> Inl e
      | Inr idx' \<Rightarrow> index_records L self rs idx')"

section \<open>A small instance for evaluation\<close>

text \<open>
  An instance of the library interface on which the model can be run. An index is the
  list of the inserted pairs; an insert raises on a key the list holds, and a query returns
  the keys stored with the same signature. The hash of a byte string is the sum of its
  bytes. The generator is a counter from zero: a draw from 1 gives 1, a draw from 0 gives
  the counter and advances it, so that slot \<open>i\<close> has the multiplier 1 and the offset \<open>i\<close>.
\<close>

definition toy_datasketch :: "(nat, (pyval \<times> nat list) list) datasketch" where
  "toy_datasketch =
     \<lparr> hashfunc = (\<lambda>b. sum_list (map of_char b)),
       RandomState = (\<lambda>seed'. 0),
       randint = (\<lambda>lo hi gen. if lo = 0 then (gen, Suc gen) else (lo, gen)),
       new_lsh = (\<lambda>t n d. Inr []),
       lsh_insert = (\<lambda>k m idx. if k \<in> fst ` set idx then Inl ValueError else Inr (idx @ [(k, m)])),
       lsh_query = (\<lambda>m idx. map fst (filter (\<lambda>km. snd km = m) idx)) \<rparr>"

definition alice :: row where
  "alice = [(''id'', PInt 1), (''name'', PStr ''al sm'')]"

definition anon :: row where
  "anon = [(''name'', PStr ''bo'')]"

definition zero_row :: row where
  "zero_row = [(''id'', PInt 1), (''n'', PInt 0)]"

definition blank_row :: row where
  "blank_row = [(''id'', PInt 1), (''a'', PNone), (''b'', PStr '' '')]"

text \<open>
  An iterator over the rows \<open>rows\<close> with the flags \<open>letter\<close> and \<open>text\<close>, session size
  \<open>n\<close>, two permutations and the in-memory storage configuration.
\<close>

definition example ::
  "row list \<Rightarrow> bool \<Rightarrow> bool \<Rightarrow> int \<Rightarrow> ((pyval \<times> nat list) list) blocking_record_iterator" where
  "example rows letter text n =
     init ''id'' ''cur'' (\<lambda>q. rows) ''select'' (1 / 2) (Some [(''type'', ''dict'')])
       letter text n (Suc (Suc 0))"

section \<open>Strings and shingles\<close>

lemma filter_dropWhile_not: "filter (\<lambda>c. \<not> P c) (dropWhile P xs) = filter (\<lambda>c. \<not> P c) xs"
  by (induction xs) auto

lemma re_sub_ws_filter: "re_sub_ws s = filter (\<lambda>c. \<not> is_space c) s"
  by (induction s rule: re_sub_ws.induct) (auto simp: filter_dropWhile_not)

lemma join_empty: "join [] xs = concat xs"
  by (induction "[]::string" xs rule: join.induct) auto

lemma split_on_nonempty: "split_on d s \<noteq> []"
  by (induction s) (auto split: list.splits)

lemma text_parts_fails: "xs \<noteq> [] \<Longrightarrow> text_parts xs = Inl AttributeError"
  by (cases xs) (auto simp: str_trim_def)

lemma dict_getitem_keys: "k \<in> set (keys r) \<Longrightarrow> dict_getitem r k \<noteq> None"
  by (simp add: keys_def dict_getitem_def map_of_eq_None_iff)

lemma dict_getitem_distinct:
  "distinct (map fst r) \<Longrightarrow> (k, v) \<in> set r \<Longrightarrow> dict_getitem r k = Some v"
  by (simp add: dict_getitem_def)

lemma record_to_string_loop_values:
  "distinct (map fst r) \<Longrightarrow> set xs \<subseteq> set r \<Longrightarrow>
   record_to_string_loop r (map fst xs) vals = vals @ filter truthy (map snd xs)"
proof (induction xs arbitrary: vals)
  case Nil
  then show ?case by simp
next
  case (Cons x xs)
  obtain k v where x: "x = (k, v)" by (cases x)
  with Cons.prems have "dict_getitem r k = Some v"
    by (auto intro: dict_getitem_distinct)
  with Cons x show ?case by simp
qed

lemma remove1_keys:
  "distinct (map fst r) \<Longrightarrow> remove1 k (map fst r) = map fst (filter (\<lambda>kv. fst kv \<noteq> k) r)"
proof (induction r)
  case Nil
  then show ?case by simp
next
  case (Cons x r)
  show ?case
  proof (cases "fst x = k")
    case True
    with Cons.prems have "k \<notin> fst ` set r" by auto
    then have "filter (\<lambda>kv. fst kv \<noteq> k) r = r"
      by (auto simp: filter_id_conv)
    with True show ?thesis by simp
  next
    case False
    with Cons show ?thesis by simp
  qed
qed

lemma record_to_string_values:
  assumes "distinct (map fst r)"
  shows "record_to_string self r d = join d (map py_str (filter truthy (non_id_values (id_name self) r)))"
proof -
  let ?xs = "filter (\<lambda>kv. fst kv \<noteq> id_name self) r"
  have "id_name self \<notin> set (keys r) \<Longrightarrow> ?xs = r"
    by (force simp: keys_def filter_id_conv)
  then have ks: "(if id_name self \<in> set (keys r) then remove1 (id_name self) (keys r) else keys r) = map fst ?xs"
    using assms by (auto simp: keys_def remove1_keys)
  have "record_to_string_loop r (map fst ?xs) [] = [] @ filter truthy (map snd ?xs)"
    using assms by (intro record_to_string_loop_values) auto
  with ks show ?thesis
    by (simp add: record_to_string_def non_id_values_def Let_def)
qed

lemma get_shingle_text_fails:
  "\<not> is_letter self \<Longrightarrow> is_text self \<Longrightarrow> get_shingle self r = Inl AttributeError"
  by (auto simp: get_shingle_def text_parts_fails split_on_nonempty split: pyval.splits)

lemma string_of_nat_zero: "string_of_nat 0 = ''0''"
  by (simp add: string_of_nat.simps [of 0] digit_char_def)

lemma blank_no_chars:
  "\<forall>v \<in> set vs. blank v \<Longrightarrow>
   filter (\<lambda>c. \<not> is_space c) (concat (map py_str (filter truthy vs))) = []"
proof (induction vs)
  case Nil
  then show ?case by simp
next
  case (Cons v vs)
  then have "blank v" by simp
  then have "filter (\<lambda>c. \<not> is_space c) (if truthy v then py_str v else []) = []"
    by (cases v) (auto simp: blank_def list_all_iff)
  with Cons show ?case by auto
qed

section \<open>Signing and the build loop\<close>

lemma get_shingle_ok:
  "is_letter self \<or> \<not> is_text self \<Longrightarrow> get_shingle self r = Inr (shingles self r)"
  by (auto simp: get_shingle_def shingles_def Let_def)

lemma get_min_hash_ok:
  "is_letter self \<or> \<not> is_text self \<Longrightarrow>
   get_min_hash L self r = Inr (sign L (num_perm self) (shingles self r))"
  by (simp add: get_min_hash_def get_shingle_ok sign_def)

lemma get_min_hash_fails:
  "\<not> is_letter self \<Longrightarrow> is_text self \<Longrightarrow> get_min_hash L self r = Inl AttributeError"
  by (simp add: get_min_hash_def get_shingle_text_fails)

lemma get_shingle_frame:
  "id_name s1 = id_name s2 \<Longrightarrow> is_letter s1 = is_letter s2 \<Longrightarrow> is_text s1 = is_text s2 \<Longrightarrow>
   get_shingle s1 r = get_shingle s2 r"
  by (simp add: get_shingle_def record_to_string_def get_record_text_def split_record_words_def)

lemma length_draw_permutations: "length (draw_permutations L n gen) = n"
  by (induction n arbitrary: gen) (simp_all split: prod.splits)

lemma length_init_permutations: "length (init_permutations L seed' n) = n"
  by (simp add: init_permutations_def length_draw_permutations)

lemma permutations_fold_update:
  "permutations (fold (\<lambda>c m. update L (encode_utf8 c) m) cset m) = permutations m"
  by (induction cset arbitrary: m) (simp_all add: update_def)

lemma map2_map2: "map2 F ps (map2 G ps hs) = map2 (\<lambda>p h. F p (G p h)) ps hs"
  by (induction ps hs rule: list_induct2') simp_all

lemma map2_replicate: "length ps = n \<Longrightarrow> map2 F ps (replicate n x) = map (\<lambda>p. F p x) ps"
  by (induction ps arbitrary: n) auto

lemma Min_insert_min:
  "finite S \<Longrightarrow> Min (insert (min a h) S) = Min (insert (h::nat) (insert a S))"
  by (cases "S = {}") (simp_all add: min.assoc min.commute min.left_commute)

text \<open>
  After the updates every slot holds the minimum, over the set of the shingles, of their
  permuted hashes and of the value the slot had.
\<close>

lemma fold_update_min:
  assumes "length (permutations m) = length (hashvalues m)"
  shows "hashvalues (fold (\<lambda>c m. update L (encode_utf8 c) m) cset m) =
     map2 (\<lambda>(a, b) h. Min (insert h ((\<lambda>c. permuted_hash a b (hashfunc L (encode_utf8 c))) ` set cset)))
       (permutations m) (hashvalues m)"
  using assms
proof (induction cset arbitrary: m)
  case Nil
  have "map2 (\<lambda>(a, b) h. h) (permutations m) (hashvalues m) = map snd (zip (permutations m) (hashvalues m))"
    by (simp add: case_prod_beta)
  with Nil show ?case by simp
next
  case (Cons c cset)
  let ?f = "\<lambda>c m. update L (encode_utf8 c) m"
  let ?m = "update L (encode_utf8 c) m"
  let ?S = "\<lambda>a b. (\<lambda>c. permuted_hash a b (hashfunc L (encode_utf8 c))) ` set cset"
  have l: "length (permutations ?m) = length (hashvalues ?m)"
    using Cons.prems by (simp add: update_def)
  have "hashvalues (fold ?f (c # cset) m) = hashvalues (fold ?f cset ?m)"
    by simp
  also have "\<dots> = map2 (\<lambda>(a, b) h. Min (insert h (?S a b))) (permutations ?m) (hashvalues ?m)"
    by (rule Cons.IH [OF l])
  also have "\<dots> = map2 (\<lambda>(a, b) h. Min (insert (min (permuted_hash a b (hashfunc L (encode_utf8 c))) h) (?S a b)))
      (permutations m) (hashvalues m)"
    by (simp add: update_def map2_map2 case_prod_beta)
  also have "\<dots> = map2 (\<lambda>(a, b) h. Min (insert h ((\<lambda>c. permuted_hash a b (hashfunc L (encode_utf8 c))) ` set (c # cset))))
      (permutations m) (hashvalues m)"
    by (simp add: Min_insert_min)
  finally show ?case .
qed

text \<open>
  The signature of a shingle list under the permutations drawn from the seed 1: slot by
  slot, the least permuted hash of the shingles, or the sentinel.
\<close>

lemma sign_min:
  "sign L n cset =
   map (\<lambda>(a, b). Min (insert max_hash ((\<lambda>c. permuted_hash a b (hashfunc L (encode_utf8 c))) ` set cset)))
     (init_permutations L 1 n)"
proof -
  have "length (permutations (MinHash L n 1)) = length (hashvalues (MinHash L n 1))"
    by (simp add: MinHash_def length_init_permutations)
  then show ?thesis
    by (simp add: sign_def fold_update_min)
       (simp add: MinHash_def map2_replicate length_init_permutations case_prod_beta)
qed

lemma sign_set: "set c1 = set c2 \<Longrightarrow> sign L n c1 = sign L n c2"
  by (simp add: sign_min)

lemma sign_length: "length (sign L n cset) = n"
  by (simp add: sign_min length_init_permutations)

lemma sign_empty: "sign L n [] = replicate n max_hash"
proof -
  have "(\<lambda>(a::nat, b::nat). max_hash) = (\<lambda>p. max_hash)"
    by (simp add: fun_eq_iff)
  then show ?thesis
    by (simp add: sign_min map_replicate_const length_init_permutations)
qed

lemma create_hashes_body_ok:
  assumes "is_letter self \<or> \<not> is_text self"
  shows "create_hashes_body L self r session = index_record L self r session"
proof (cases "dict_getitem r (id_name self)")
  case None
  then show ?thesis
    by (simp add: create_hashes_body_def index_record_def)
next
  case (Some key_val)
  then have "id_name self \<in> set (keys r)"
    by (auto simp: keys_def dict_getitem_def dest: map_of_SomeD intro: rev_image_eqI)
  with Some assms show ?thesis
    by (simp add: create_hashes_body_def index_record_def get_min_hash_ok)
qed

lemma create_hashes_body_no_id:
  "id_name self \<notin> set (keys r) \<Longrightarrow> create_hashes_body L self r session = Inr session"
  by (simp add: create_hashes_body_def)

lemma create_hashes_loop_stop:
  "\<not> i < session_size self \<Longrightarrow> create_hashes_loop L self i run it session = (Inr run, it, session)"
  by (subst create_hashes_loop.simps) simp

lemma create_hashes_loop_end:
  "i < session_size self \<Longrightarrow> create_hashes_loop L self i True [] session = (Inr False, [], session)"
  by (subst create_hashes_loop.simps, simp, subst create_hashes_loop.simps, simp)

lemma create_hashes_loop_step:
  "i < session_size self \<Longrightarrow>
   create_hashes_loop L self i True (r # it) session =
     (case create_hashes_body L self r session of
        Inl e \<Rightarrow> (Inl e, it, session)
      | Inr session' \<Rightarrow> create_hashes_loop L self (i + 1) True it session')"
  by (subst create_hashes_loop.simps) simp

text \<open>
  The loop under the character and word strategies, when no insert raises: it reads the
  first \<open>session_size - i\<close> records, or all of them if there are fewer, indexes them in
  order, and returns whether the budget, not the end of the source, stopped it.
\<close>

lemma create_hashes_loop_batch:
  assumes "is_letter self \<or> \<not> is_text self"
    and "index_records L self (take (nat (session_size self - i)) it) session = Inr idx'"
  shows "create_hashes_loop L self i True it session =
     (Inr (session_size self - i \<le> int (length it)),
      drop (nat (session_size self - i)) it, idx')"
  using assms(2)
proof (induction it arbitrary: i session)
  case Nil
  then show ?case
    by (cases "i < session_size self") (simp_all add: create_hashes_loop_end create_hashes_loop_stop)
next
  case (Cons r it)
  show ?case
  proof (cases "i < session_size self")
    case True
    then have n: "nat (session_size self - i) = Suc (nat (session_size self - (i + 1)))"
      by simp
    have b: "(session_size self - (i + 1) \<le> int (length it)) =
        (session_size self - i \<le> int (length (r # it)))"
      by auto
    from Cons.prems obtain s1 where
      s1: "index_record L self r session = Inr s1"
      and rest: "index_records L self (take (nat (session_size self - (i + 1))) it) s1 = Inr idx'"
      by (auto simp: n split: sum.splits)
    from True show ?thesis
      by (simp add: create_hashes_loop_step create_hashes_body_ok [OF assms(1)] s1
          Cons.IH [OF rest] n b del: One_nat_def)
  next
    case False
    with Cons.prems show ?thesis
      by (simp add: create_hashes_loop_stop)
  qed
qed

text \<open>
  The loop on records without the identifier, under any strategy: nothing is inserted,
  and each record read uses one unit of the budget.
\<close>

lemma create_hashes_loop_no_id:
  assumes "\<forall>r \<in> set (take (nat (session_size self - i)) it). id_name self \<notin> set (keys r)"
  shows "create_hashes_loop L self i True it session =
     (Inr (session_size self - i \<le> int (length it)),
      drop (nat (session_size self - i)) it, session)"
  using assms
proof (induction it arbitrary: i)
  case Nil
  then show ?case
    by (cases "i < session_size self") (simp_all add: create_hashes_loop_end create_hashes_loop_stop)
next
  case (Cons r it)
  show ?case
  proof (cases "i < session_size self")
    case True
    then have n: "nat (session_size self - i) = Suc (nat (session_size self - (i + 1)))"
      by simp
    have b: "(session_size self - (i + 1) \<le> int (length it)) =
        (session_size self - i \<le> int (length (r # it)))"
      by auto
    from Cons.prems have r: "id_name self \<notin> set (keys r)"
      and rest: "\<forall>r \<in> set (take (nat (session_size self - (i + 1))) it). id_name self \<notin> set (keys r)"
      by (simp_all add: n)
    from True show ?thesis
      by (simp add: create_hashes_loop_step create_hashes_body_no_id [OF r]
          Cons.IH [OF rest] n b del: One_nat_def)
  next
    case False
    then show ?thesis
      by (simp add: create_hashes_loop_stop)
  qed
qed

lemma shingles_lsh: "shingles (self\<lparr>lsh := x\<rparr>) r = shingles self r"
  by (simp add: shingles_def record_to_string_def split_record_words_def Let_def)

lemma index_record_lsh: "index_record L (self\<lparr>lsh := x\<rparr>) = index_record L self"
  by (simp add: fun_eq_iff index_record_def shingles_lsh split: option.splits)

lemma index_records_lsh: "index_records L (self\<lparr>lsh := x\<rparr>) rs idx = index_records L self rs idx"
  by (induction rs arbitrary: idx) (simp_all add: index_record_lsh split: sum.splits)

lemma create_hashes_batch:
  assumes "is_letter self \<or> \<not> is_text self" and "lsh self = Some idx"
    and "index_records L self (take (nat (session_size self)) it) idx = Inr idx'"
  shows "create_hashes L self it =
     (Inr (session_size self \<le> int (length it)),
      drop (nat (session_size self)) it, self\<lparr>lsh := Some idx'\<rparr>)"
  using assms(2,3) create_hashes_loop_batch [OF assms(1), of L 0 it idx idx']
  by (simp add: create_hashes_def)

section \<open>The query phase\<close>

lemma shingles_curr_it: "shingles (self\<lparr>curr_it := x\<rparr>) r = shingles self r"
  by (simp add: shingles_def record_to_string_def split_record_words_def Let_def)

lemma next_pair_end:
  "curr_it self = Some [] \<Longrightarrow> next_pair L self = (Inl StopIteration, self)"
  by (simp add: next_pair_def)

lemma next_pair_empty_row:
  "curr_it self = Some ([] # rest) \<Longrightarrow>
   next_pair L self = (Inl StopIteration, self\<lparr>curr_it := Some rest\<rparr>)"
  by (simp add: next_pair_def)

lemma next_pair_yield:
  assumes "is_letter self \<or> \<not> is_text self" and "curr_it self = Some (nrow # rest)"
    and "lsh self = Some idx" and "nrow \<noteq> []"
  shows "next_pair L self =
     (Inr (nrow, lsh_query L (sign L (num_perm self) (shingles self nrow)) idx),
      self\<lparr>curr_it := Some rest\<rparr>)"
proof -
  have "get_min_hash L (self\<lparr>curr_it := Some rest\<rparr>) nrow =
      Inr (sign L (num_perm self) (shingles self nrow))"
    using assms(1) get_min_hash_ok [of "self\<lparr>curr_it := Some rest\<rparr>" L nrow]
    by (simp add: shingles_curr_it)
  with assms show ?thesis
    by (simp add: next_pair_def)
qed

lemma drain_raise:
  "next_pair L self = (Inl e, self') \<Longrightarrow> drain L self = ([], e, self')"
  by (subst drain.simps) simp

lemma drain_yield:
  "next_pair L self = (Inr p, self') \<Longrightarrow>
   drain L self = (p # fst (drain L self'), fst (snd (drain L self')), snd (snd (drain L self')))"
  by (subst drain.simps) (simp add: case_prod_beta)

lemma drain_pairs:
  assumes "is_letter self \<or> \<not> is_text self" and "curr_it self = Some src"
    and "lsh self = Some idx" and "[] \<notin> set src"
  shows "drain L self =
     (map (\<lambda>r. (r, lsh_query L (sign L (num_perm self) (shingles self r)) idx)) src,
      StopIteration, self\<lparr>curr_it := Some []\<rparr>)"
  using assms
proof (induction src arbitrary: self)
  case Nil
  then have "self\<lparr>curr_it := Some []\<rparr> = self"
    by simp
  with Nil show ?case
    by (simp add: drain_raise [OF next_pair_end])
next
  case (Cons r src)
  let ?self' = "self\<lparr>curr_it := Some src\<rparr>"
  have n: "next_pair L self =
      (Inr (r, lsh_query L (sign L (num_perm self) (shingles self r)) idx), ?self')"
    using Cons.prems by (intro next_pair_yield) auto
  have "drain L ?self' =
     (map (\<lambda>r. (r, lsh_query L (sign L (num_perm ?self') (shingles ?self' r)) idx)) src,
      StopIteration, ?self'\<lparr>curr_it := Some []\<rparr>)"
    using Cons.prems by (intro Cons.IH) auto
  then show ?case
    by (simp add: drain_yield [OF n] shingles_curr_it)
qed

text \<open>
  \<open>__iter__\<close> on a fresh iterator with a storage configuration, when the library builds the
  index and no insert raises: it indexes the first \<open>session_size\<close> rows and enters the query
  phase on the whole of the rows.
\<close>

lemma iter_enters_query_phase:
  assumes "is_letter self \<or> \<not> is_text self" and "curr_it self = None"
    and "storage_config self = Some d" and "d \<noteq> []"
    and "MinHashLSH L (threshold self) (num_perm self) d = Inr idx0"
    and "index_records L self (take (nat (session_size self)) (conn self (query self))) idx0 = Inr idx'"
  shows "fst (iter L self) = None \<and>
         curr_it (snd (iter L self)) = Some (conn self (query self)) \<and>
         lsh (snd (iter L self)) = Some idx'"
proof -
  let ?self1 = "self\<lparr>lsh := Some idx0\<rparr>"
  have s: "setup_lsh L self = Inr ?self1"
    using assms(3,4,5) by (simp add: setup_lsh_def)
  have c: "create_hashes L ?self1 (conn self (query self)) =
     (Inr (session_size self \<le> int (length (conn self (query self)))),
      drop (nat (session_size self)) (conn self (query self)),
      ?self1\<lparr>lsh := Some idx'\<rparr>)"
    using assms(1,6) create_hashes_batch [of ?self1 idx0 L "conn self (query self)" idx']
    by (simp add: index_records_lsh)
  show ?thesis
    using assms(2) by (simp add: iter_def s get_iter_def pg_iter_def c set_cursor_name_def)
qed

section \<open>The claims\<close>

lemmas eval_defs = example_def init_def toy_datasketch_def alice_def anon_def zero_row_def
  get_min_hash_def get_shingle_def record_to_string_def keys_def dict_getitem_def
  split_str_to_chars_def split_record_words_def is_space_def encode_utf8_def encode_char_def
  update_def MinHash_def max_hash_def init_permutations_def permuted_hash_def mersenne_prime_def
  Let_def

text \<open>
  Claim C9. Signing is deterministic. Every call of \<open>_get_min_hash\<close> makes its own
  \<open>MinHash\<close>, whose permutations are drawn anew from a generator made from the seed 1, and
  no generator outlives the call. So two calls on the same record, in any two states of
  the iterator that agree on the identifier name, the strategy flags and \<open>num_perm\<close>, give
  the same result; and where the record has shingles, the signature is, slot by slot, the
  least permuted hash over the set of the shingles under the permutations of the seed 1,
  or the sentinel.
\<close>

theorem get_min_hash_deterministic:
  assumes "id_name s1 = id_name s2" and "is_letter s1 = is_letter s2"
    and "is_text s1 = is_text s2" and "num_perm s1 = num_perm s2"
  shows "get_min_hash L s1 r = get_min_hash L s2 r \<and>
         (\<forall>cset. get_shingle s1 r = Inr cset \<longrightarrow>
            get_min_hash L s2 r =
              Inr (map (\<lambda>(a, b). Min (insert max_hash
                         ((\<lambda>c. permuted_hash a b (hashfunc L (encode_utf8 c))) ` set cset)))
                     (init_permutations L 1 (num_perm s1))))"
proof -
  have g: "get_shingle s1 r = get_shingle s2 r"
    using assms by (simp add: get_shingle_def record_to_string_def get_record_text_def
        split_record_words_def)
  show ?thesis
  proof (cases "get_shingle s1 r")
    case (Inl e)
    with g have "get_shingle s2 r = Inl e"
      by simp
    with Inl show ?thesis
      by (simp add: get_min_hash_def)
  next
    case (Inr cset)
    then have "get_min_hash L s1 r = Inr (sign L (num_perm s1) cset)"
      by (simp add: get_min_hash_def sign_def)
    moreover from Inr g assms(4) have "get_min_hash L s2 r = Inr (sign L (num_perm s1) cset)"
      by (simp add: get_min_hash_def sign_def)
    ultimately show ?thesis
      using Inr by (simp add: sign_min)
  qed
qed

theorem get_min_hash_deterministic_witness:
  "id_name (example [] True False 2) = id_name (example [alice] True False 5\<lparr>lsh := Some [(PInt 1, [97, 98])], curr_it := Some []\<rparr>) \<and>
   get_min_hash toy_datasketch (example [] True False 2) alice =
   get_min_hash toy_datasketch
     (example [alice] True False 5\<lparr>lsh := Some [(PInt 1, [97, 98])], curr_it := Some []\<rparr>) alice \<and>
   get_shingle (example [] True False 2) alice = Inr [''a'', ''l'', ''s'', ''m''] \<and>
   get_min_hash toy_datasketch (example [] True False 2) alice = Inr [97, 98]"
proof -
  let ?s1 = "example [] True False 2 :: ((pyval \<times> nat list) list) blocking_record_iterator"
  let ?s2 = "example [alice] True False 5\<lparr>lsh := Some [(PInt 1, [97, 98])], curr_it := Some []\<rparr>"
  have h: "id_name ?s1 = id_name ?s2" "is_letter ?s1 = is_letter ?s2"
    "is_text ?s1 = is_text ?s2" "num_perm ?s1 = num_perm ?s2"
    by (simp_all add: example_def init_def)
  have c: "get_shingle ?s1 alice = Inr [''a'', ''l'', ''s'', ''m'']"
    by (simp add: eval_defs)
  have v: "get_min_hash toy_datasketch ?s1 alice = Inr [97, 98]"
    by (simp add: eval_defs)
  from get_min_hash_deterministic [OF h, of toy_datasketch alice] h(1) c v
  show ?thesis by simp
qed

text \<open>
  Claim C3, as stated, fails: with a storage configuration supplied and the threshold
  \<open>3 / 2\<close>, the constructor of the index raises \<open>ValueError\<close>, and so does \<open>setup_lsh\<close>.
\<close>

theorem setup_lsh_threshold_counterexample:
  "storage_supplied (storage_config (example [] True False 2\<lparr>threshold := 3 / 2\<rparr>)) \<and>
   setup_lsh toy_datasketch (example [] True False 2\<lparr>threshold := 3 / 2\<rparr>) = Inl ValueError"
  by (simp add: example_def init_def storage_supplied_def setup_lsh_def MinHashLSH_def)

text \<open>
  Claim C3, amended. \<open>setup_lsh\<close> raises its configuration error (a \<open>ValueError\<close>) when no
  storage configuration is supplied. When one is supplied it calls the library's
  constructor on the configured threshold, \<open>num_perm\<close> and storage configuration, and raises
  exactly what the constructor raises: \<open>ValueError\<close> for a threshold outside \<open>[0, 1]\<close> or a
  \<open>num_perm\<close> below 2, or the error of the rest of the construction; when the constructor
  returns, no error is raised and the index is the one it built.
\<close>

theorem setup_lsh_storage:
  "(\<not> storage_supplied (storage_config self) \<longrightarrow> setup_lsh L self = Inl ValueError) \<and>
   (\<forall>d. storage_config self = Some d \<and> d \<noteq> [] \<longrightarrow>
      ((threshold self < 0 \<or> 1 < threshold self \<or> num_perm self < 2) \<longrightarrow>
         setup_lsh L self = Inl ValueError) \<and>
      (0 \<le> threshold self \<and> threshold self \<le> 1 \<and> 2 \<le> num_perm self \<longrightarrow>
         (\<forall>e. new_lsh L (threshold self) (num_perm self) d = Inl e \<longrightarrow> setup_lsh L self = Inl e) \<and>
         (\<forall>idx. new_lsh L (threshold self) (num_perm self) d = Inr idx \<longrightarrow>
            setup_lsh L self = Inr (self\<lparr>lsh := Some idx\<rparr>))))"
  by (auto simp: setup_lsh_def storage_supplied_def MinHashLSH_def split: option.splits)

theorem setup_lsh_storage_witness:
  "storage_supplied (storage_config (example [] True False 2\<lparr>num_perm := 128\<rparr>)) \<and>
   new_lsh toy_datasketch (1 / 2) 128 [(''type'', ''dict'')] = Inr [] \<and>
   setup_lsh toy_datasketch (example [] True False 2\<lparr>num_perm := 128\<rparr>) =
     Inr (example [] True False 2\<lparr>num_perm := 128, lsh := Some []\<rparr>) \<and>
   setup_lsh toy_datasketch (example [] True False 2\<lparr>num_perm := 1\<rparr>) = Inl ValueError \<and>
   \<not> storage_supplied (storage_config (example [] True False 2\<lparr>storage_config := Some []\<rparr>)) \<and>
   setup_lsh toy_datasketch (example [] True False 2\<lparr>storage_config := Some []\<rparr>) = Inl ValueError \<and>
   \<not> storage_supplied (storage_config (example [] True False 2\<lparr>storage_config := None\<rparr>)) \<and>
   setup_lsh toy_datasketch (example [] True False 2\<lparr>storage_config := None\<rparr>) = Inl ValueError"
  using setup_lsh_storage [of "example [] True False 2\<lparr>num_perm := 128\<rparr>" toy_datasketch]
    setup_lsh_storage [of "example [] True False 2\<lparr>num_perm := 1\<rparr>" toy_datasketch]
    setup_lsh_storage [of "example [] True False 2\<lparr>storage_config := Some []\<rparr>" toy_datasketch]
    setup_lsh_storage [of "example [] True False 2\<lparr>storage_config := None\<rparr>" toy_datasketch]
  by (simp add: example_def init_def storage_supplied_def toy_datasketch_def)

text \<open>
  Claim C4. In the build loop a record without the identifier field inserts nothing (the
  session is unchanged) and the loop goes on with the counter incremented. So the record
  counts against the session size: while the records read lack the identifier, the loop
  stops after \<open>session_size - i\<close> of them, or at the end of the source if it comes first,
  with the index as it was and the other records unread.
\<close>

theorem create_hashes_skips_without_id:
  "(id_name self \<notin> set (keys r) \<longrightarrow> create_hashes_body L self r session = Inr session) \<and>
   (id_name self \<notin> set (keys r) \<and> i < session_size self \<longrightarrow>
      create_hashes_loop L self i True (r # it) session =
      create_hashes_loop L self (i + 1) True it session) \<and>
   ((\<forall>r \<in> set (take (nat (session_size self - i)) it). id_name self \<notin> set (keys r)) \<longrightarrow>
      create_hashes_loop L self i True it session =
        (Inr (session_size self - i \<le> int (length it)),
         drop (nat (session_size self - i)) it, session))"
  by (simp add: create_hashes_body_no_id create_hashes_loop_step create_hashes_loop_no_id)

theorem create_hashes_skips_without_id_witness:
  "id_name (example [] True False 1) \<notin> set (keys anon) \<and>
   create_hashes_body toy_datasketch (example [] True False 1) anon [] = Inr [] \<and>
   create_hashes_loop toy_datasketch (example [] True False 1) 0 True [anon, anon, alice] [] =
     (Inr True, [anon, alice], []) \<and>
   create_hashes_loop toy_datasketch (example [] True False 2) 0 True [anon, anon, alice] [] =
     (Inr True, [alice], []) \<and>
   create_hashes_loop toy_datasketch (example [] True False 3) 0 True [anon, anon] [] =
     (Inr False, [], [])"
proof -
  let ?s1 = "example [] True False 1 :: ((pyval \<times> nat list) list) blocking_record_iterator"
  let ?s2 = "example [] True False 2 :: ((pyval \<times> nat list) list) blocking_record_iterator"
  let ?s3 = "example [] True False 3 :: ((pyval \<times> nat list) list) blocking_record_iterator"
  have n: "session_size ?s1 = 1" "session_size ?s2 = 2" "session_size ?s3 = 3"
    "id_name ?s1 = ''id''" "id_name ?s2 = ''id''" "id_name ?s3 = ''id''"
    by (simp_all add: example_def init_def)
  have a: "''id'' \<notin> set (keys anon)"
    by (simp add: anon_def keys_def)
  have t: "take (nat (1 - 0)) [anon, anon, alice] = [anon]"
    "take (nat (2 - 0)) [anon, anon, alice] = [anon, anon]"
    "take (nat (3 - 0)) [anon, anon] = [anon, anon]"
    "drop (nat (1 - 0)) [anon, anon, alice] = [anon, alice]"
    "drop (nat (2 - 0)) [anon, anon, alice] = [alice]"
    "drop (nat (3 - 0)) [anon, anon] = []"
    by (simp_all add: numeral_2_eq_2 numeral_3_eq_3)
  from create_hashes_skips_without_id [of ?s1 anon toy_datasketch "[]" 0 "[anon, anon, alice]"]
    create_hashes_skips_without_id [of ?s2 anon toy_datasketch "[]" 0 "[anon, anon, alice]"]
    create_hashes_skips_without_id [of ?s3 anon toy_datasketch "[]" 0 "[anon, anon]"]
  show ?thesis
    unfolding n t using a by simp
qed

text \<open>
  Claim C5, as stated, fails: a field holding the integer \<open>0\<close> is a non-identifier value
  whose cast is the string \<open>0\<close>, yet the code drops it and returns no shingle.
\<close>

theorem character_shingles_counterexample:
  "get_shingle (example [] True False 2) zero_row = Inr [] \<and>
   spec_character_shingles ''id'' zero_row = {''0''}"
  by (simp add: eval_defs spec_character_shingles_def non_id_values_def spec_cast_def string_of_nat_zero)

text \<open>
  Claim C5, amended. Under the character strategy the shingles are the characters of the
  concatenation, without delimiter and without whitespace, of the string casts of the
  non-identifier values that are true (\<open>if val:\<close> leaves out \<open>None\<close>, the empty string,
  zero and \<open>False\<close>); a record whose non-identifier fields are all blank or \<open>None\<close> gives no
  shingle.
\<close>

theorem character_shingles_truthy:
  assumes "is_letter self" and "distinct (map fst r)"
  shows "get_shingle self r =
           Inr (map (\<lambda>c. [c]) (filter (\<lambda>c. \<not> is_space c)
                  (concat (map py_str (filter truthy (non_id_values (id_name self) r)))))) \<and>
         ((\<forall>v \<in> set (non_id_values (id_name self) r). blank v) \<longrightarrow> get_shingle self r = Inr [])"
proof -
  let ?s = "filter (\<lambda>c. \<not> is_space c)
              (concat (map py_str (filter truthy (non_id_values (id_name self) r))))"
  have "get_shingle self r = Inr (split_str_to_chars ?s)"
    using assms
    by (simp add: get_shingle_def record_to_string_values join_empty re_sub_ws_filter)
  moreover have "split_str_to_chars ?s = map (\<lambda>c. [c]) ?s"
    by (simp add: split_str_to_chars_def)
  ultimately have 1: "get_shingle self r = Inr (map (\<lambda>c. [c]) ?s)"
    by simp
  have "get_shingle self r = Inr []"
    if "\<forall>v \<in> set (non_id_values (id_name self) r). blank v"
    using 1 blank_no_chars [OF that] by simp
  with 1 show ?thesis by blast
qed

theorem character_shingles_truthy_witness:
  "is_letter (example [] True False 2) \<and> distinct (map fst alice) \<and>
   get_shingle (example [] True False 2) alice = Inr [''a'', ''l'', ''s'', ''m''] \<and>
   distinct (map fst blank_row) \<and>
   list_all blank (non_id_values (id_name (example [] True False 2)) blank_row) \<and>
   get_shingle (example [] True False 2) blank_row = Inr []"
proof -
  let ?s = "example [] True False 2 :: ((pyval \<times> nat list) list) blocking_record_iterator"
  have l: "is_letter ?s" by (simp add: example_def init_def)
  have d: "distinct (map fst alice)" "distinct (map fst blank_row)"
    by (simp_all add: alice_def blank_row_def)
  have b: "\<forall>v \<in> set (non_id_values (id_name ?s) blank_row). blank v"
    by (simp add: example_def init_def non_id_values_def blank_row_def blank_def is_space_def)
  have v: "non_id_values (id_name ?s) alice = [PStr ''al sm'']"
    by (simp add: example_def init_def non_id_values_def alice_def)
  from character_shingles_truthy [OF l d(1)] v
  have 1: "get_shingle ?s alice = Inr [''a'', ''l'', ''s'', ''m'']"
    by (simp add: is_space_def)
  from character_shingles_truthy [OF l d(2)] b
  have 2: "get_shingle ?s blank_row = Inr []"
    by blast
  from b have "list_all blank (non_id_values (id_name ?s) blank_row)"
    by (simp add: list_all_iff)
  with l d 1 2 show ?thesis by blast
qed

text \<open>
  Claim C6. The specification's tokenized shingles of the record \<open>alice\<close> (with splitting at
  spaces as the tokenizer) are its two words; the text branch of the code raises
  \<open>AttributeError\<close> on it, at \<open>x.trim()\<close>, and never calls the tokenizer.
\<close>

theorem tokenized_shingles_raise:
  "get_shingle (example [] False True 2) alice = Inl AttributeError \<and>
   spec_tokenized_shingles (split_on CHR '' '') ''id'' alice = [''al'', ''sm'']"
  by (simp add: eval_defs get_record_text_def dict_pop_def str_trim_def
      spec_tokenized_shingles_def non_id_values_def)

text \<open>
  Claim C7, as stated, fails: with both flags off no strategy is selected, and extraction
  proceeds, with the words of the record.
\<close>

theorem word_fallback_counterexample:
  "\<not> is_letter (example [] False False 2) \<and> \<not> is_text (example [] False False 2) \<and>
   get_shingle (example [] False False 2) alice = Inr [''al'', ''sm'']"
  by (simp add: eval_defs)

text \<open>
  Claim C7, amended. Shingle extraction never raises a configuration error. When neither
  flag is set it falls back to the word strategy and proceeds: the shingles are the
  pieces, split at spaces, of the join by single spaces of the string casts of the
  non-identifier values that are true (\<open>if val:\<close> leaves the other values out).
\<close>

theorem get_shingle_no_configuration_error:
  "get_shingle self r \<noteq> Inl ValueError \<and>
   (\<not> is_letter self \<and> \<not> is_text self \<longrightarrow> get_shingle self r = Inr (split_record_words self r)) \<and>
   (\<not> is_letter self \<and> \<not> is_text self \<and> distinct (map fst r) \<longrightarrow>
      get_shingle self r =
        Inr (split_on CHR '' ''
               (join '' '' (map py_str (filter truthy (non_id_values (id_name self) r))))))"
proof (cases "is_letter self \<or> \<not> is_text self")
  case True
  then show ?thesis
    by (auto simp: get_shingle_ok shingles_def split_record_words_def record_to_string_values)
next
  case False
  then show ?thesis
    by (simp add: get_shingle_text_fails)
qed

theorem get_shingle_no_configuration_error_witness:
  "\<not> is_letter (example [] False False 2) \<and> \<not> is_text (example [] False False 2) \<and>
   distinct (map fst alice) \<and> distinct (map fst zero_row) \<and>
   get_shingle (example [] False False 2) alice =
     Inr (split_record_words (example [] False False 2) alice) \<and>
   get_shingle (example [] False False 2) alice = Inr [''al'', ''sm''] \<and>
   get_shingle (example [] False False 2) zero_row = Inr [[]]"
proof -
  let ?s = "example [] False False 2 :: ((pyval \<times> nat list) list) blocking_record_iterator"
  have f: "\<not> is_letter ?s" "\<not> is_text ?s" "id_name ?s = ''id''"
    by (simp_all add: example_def init_def)
  have d: "distinct (map fst alice)" "distinct (map fst zero_row)"
    by (simp_all add: alice_def zero_row_def)
  have v: "non_id_values ''id'' alice = [PStr ''al sm'']" "non_id_values ''id'' zero_row = [PInt 0]"
    by (simp_all add: non_id_values_def alice_def zero_row_def)
  have w: "split_record_words ?s alice = [''al'', ''sm'']" "split_record_words ?s zero_row = [[]]"
    by (simp_all add: eval_defs)
  from get_shingle_no_configuration_error [of ?s alice]
    get_shingle_no_configuration_error [of ?s zero_row] f d
  show ?thesis
    by (simp add: v w)
qed

text \<open>
  Claim C8, as stated, fails: the constructor accepts \<open>is_letter\<close> and \<open>is_text\<close> both set, and
  extraction runs on that configuration.
\<close>

theorem both_flags_counterexample:
  "is_letter (example [] True True 2) \<and> is_text (example [] True True 2) \<and>
   get_shingle (example [] True True 2) alice = Inr [''a'', ''l'', ''s'', ''m'']"
  by (simp add: eval_defs)

text \<open>
  Claim C8, amended. The constructor stores any combination of the two flags; extraction
  runs exactly one strategy, chosen by priority: the character strategy when \<open>is_letter\<close> is
  set (whatever \<open>is_text\<close> is), otherwise the text branch when \<open>is_text\<close> is set, otherwise
  the word strategy.
\<close>

theorem strategy_by_priority:
  "is_letter (init idn cn cnn q th sc l t n p) = l \<and>
   is_text (init idn cn cnn q th sc l t n p) = t \<and>
   (is_letter self \<longrightarrow>
      get_shingle self r = Inr (split_str_to_chars (re_sub_ws (record_to_string self r [])))) \<and>
   (\<not> is_letter self \<and> is_text self \<longrightarrow> get_shingle self r = text_shingles self r) \<and>
   (\<not> is_letter self \<and> \<not> is_text self \<longrightarrow> get_shingle self r = Inr (split_record_words self r))"
  by (simp add: init_def get_shingle_def text_shingles_def)

theorem strategy_by_priority_witness:
  "is_letter (example [] True True 2) \<and>
   get_shingle (example [] True True 2) alice = Inr [''a'', ''l'', ''s'', ''m''] \<and>
   \<not> is_letter (example [] False True 2) \<and> is_text (example [] False True 2) \<and>
   get_shingle (example [] False True 2) alice = text_shingles (example [] False True 2) alice \<and>
   \<not> is_letter (example [] False False 2) \<and> \<not> is_text (example [] False False 2) \<and>
   get_shingle (example [] False False 2) alice = Inr [''al'', ''sm'']"
  using strategy_by_priority [of _ _ _ _ _ _ _ _ _ _ "example [] True True 2" alice]
    strategy_by_priority [of _ _ _ _ _ _ _ _ _ _ "example [] False True 2" alice]
    strategy_by_priority [of _ _ _ _ _ _ _ _ _ _ "example [] False False 2" alice]
  by (simp add: eval_defs)

text \<open>
  Claim C2. With the text strategy the build phase stops for neither of the two reasons of
  the claim: on a source of two records it raises \<open>AttributeError\<close> at the first one, which
  has the identifier, and leaves the second unread. And where the source does raise
  end-of-stream (here the empty source, under the character strategy) the value returned
  is \<open>False\<close>.
\<close>

theorem create_hashes_text_aborts:
  "fst (create_hashes toy_datasketch (example [] False True 2\<lparr>lsh := Some []\<rparr>) [alice, anon]) =
     Inl AttributeError \<and>
   fst (snd (create_hashes toy_datasketch (example [] False True 2\<lparr>lsh := Some []\<rparr>) [alice, anon])) =
     [anon] \<and>
   fst (create_hashes toy_datasketch (example [] True False 2\<lparr>lsh := Some []\<rparr>) []) = Inr False"
proof -
  let ?t = "example [] False True 2\<lparr>lsh := Some []\<rparr> :: ((pyval \<times> nat list) list) blocking_record_iterator"
  let ?c = "example [] True False 2\<lparr>lsh := Some []\<rparr> :: ((pyval \<times> nat list) list) blocking_record_iterator"
  have f: "\<not> is_letter ?t" "is_text ?t" "0 < session_size ?t" "0 < session_size ?c"
    "lsh ?t = Some []" "lsh ?c = Some []"
    by (simp_all add: example_def init_def)
  have "create_hashes_body toy_datasketch ?t alice [] = Inl AttributeError"
    using get_min_hash_fails [OF f(1,2), of toy_datasketch alice]
    by (simp add: create_hashes_body_def alice_def keys_def dict_getitem_def example_def init_def)
  then have "create_hashes_loop toy_datasketch ?t 0 True [alice, anon] [] =
      (Inl AttributeError, [anon], [])"
    by (simp add: create_hashes_loop_step [OF f(3)])
  moreover have "create_hashes_loop toy_datasketch ?c 0 True [] [] = (Inr False, [], [])"
    by (rule create_hashes_loop_end [OF f(4)])
  ultimately show ?thesis
    using f(5,6) by (simp add: create_hashes_def)
qed

text \<open>
  Claim C1, as stated, fails: on a source holding a record, an empty record and a third
  record, the pulls yield one pair and then signal \<open>StopIteration\<close>, with the third record
  still in the source.
\<close>

theorem drain_stops_at_empty_row:
  "fst (drain toy_datasketch
          (example [] True False 2\<lparr>lsh := Some [(PInt 1, [97, 98])], curr_it := Some [alice, [], anon]\<rparr>)) =
     [(alice, [PInt 1])] \<and>
   fst (snd (drain toy_datasketch
          (example [] True False 2\<lparr>lsh := Some [(PInt 1, [97, 98])], curr_it := Some [alice, [], anon]\<rparr>))) =
     StopIteration \<and>
   curr_it (snd (snd (drain toy_datasketch
          (example [] True False 2\<lparr>lsh := Some [(PInt 1, [97, 98])], curr_it := Some [alice, [], anon]\<rparr>)))) =
     Some [anon]"
proof -
  let ?s = "example [] True False 2\<lparr>lsh := Some [(PInt 1, [97, 98])], curr_it := Some [alice, [], anon]\<rparr>
    :: ((pyval \<times> nat list) list) blocking_record_iterator"
  let ?s1 = "?s\<lparr>curr_it := Some [[], anon]\<rparr>"
  let ?s2 = "?s1\<lparr>curr_it := Some [anon]\<rparr>"
  have a: "alice \<noteq> []" by (simp add: alice_def)
  have m: "get_min_hash toy_datasketch ?s1 alice = Inr [97, 98]"
    by (simp add: eval_defs)
  have 1: "next_pair toy_datasketch ?s = (Inr (alice, [PInt 1]), ?s1)"
    using a m by (simp add: next_pair_def toy_datasketch_def)
  have 2: "next_pair toy_datasketch ?s1 = (Inl StopIteration, ?s2)"
    by (simp add: next_pair_def)
  have 3: "drain toy_datasketch ?s1 = ([], StopIteration, ?s2)"
    by (rule drain_raise [OF 2])
  have "drain toy_datasketch ?s = ([(alice, [PInt 1])], StopIteration, ?s2)"
    unfolding drain_yield [OF 1] 3 by simp
  then show ?thesis
    by simp
qed

text \<open>
  Claim C1, amended. In the query phase, under the character or the word strategy and on a
  source without empty records, the pulls yield, for each record of the source in order,
  the pair of the record and of the index's query result for its signature; they go on
  until the source is exhausted, and the end is signalled by \<open>StopIteration\<close>.
\<close>

theorem drain_query_phase:
  assumes "is_letter self \<or> \<not> is_text self" and "curr_it self = Some src"
    and "lsh self = Some idx" and "[] \<notin> set src"
  shows "fst (drain L self) =
           map (\<lambda>r. (r, lsh_query L (sign L (num_perm self) (shingles self r)) idx)) src \<and>
         fst (snd (drain L self)) = StopIteration \<and>
         curr_it (snd (snd (drain L self))) = Some []"
  by (simp add: drain_pairs [OF assms])

theorem drain_query_phase_witness:
  "fst (drain toy_datasketch
          (example [] True False 2\<lparr>lsh := Some [(PInt 1, [97, 98])], curr_it := Some [alice, anon]\<rparr>)) =
     [(alice, [PInt 1]), (anon, [])] \<and>
   fst (snd (drain toy_datasketch
          (example [] True False 2\<lparr>lsh := Some [(PInt 1, [97, 98])], curr_it := Some [alice, anon]\<rparr>))) =
     StopIteration"
proof -
  let ?s = "example [] True False 2\<lparr>lsh := Some [(PInt 1, [97, 98])], curr_it := Some [alice, anon]\<rparr>
    :: ((pyval \<times> nat list) list) blocking_record_iterator"
  have h: "is_letter ?s \<or> \<not> is_text ?s" "curr_it ?s = Some [alice, anon]"
    "lsh ?s = Some [(PInt 1, [97, 98])]" "[] \<notin> set [alice, anon]"
    by (simp_all add: example_def init_def alice_def anon_def)
  have s: "sign toy_datasketch (num_perm ?s) (shingles ?s alice) = [97, 98]"
    "sign toy_datasketch (num_perm ?s) (shingles ?s anon) = [98, 99]"
    using get_min_hash_ok [OF h(1), of toy_datasketch alice]
      get_min_hash_ok [OF h(1), of toy_datasketch anon]
    by (simp_all add: eval_defs)
  from drain_query_phase [OF h, of toy_datasketch] s show ?thesis
    by (simp add: toy_datasketch_def)
qed

text \<open>
  Claim C10, as stated, fails: the empty record lacks the identifier field, and a pull
  that reads it yields no pair but signals \<open>StopIteration\<close>.
\<close>

theorem next_pair_empty_row_stops:
  "id_name (example [] True False 2) \<notin> set (keys []) \<and>
   fst (next_pair toy_datasketch
          (example [] True False 2\<lparr>lsh := Some [], curr_it := Some [[], alice]\<rparr>)) = Inl StopIteration"
  by (simp add: next_pair_def keys_def)

text \<open>
  Claim C10, amended. In the query phase, under the character or the word strategy, a
  record that is not empty and lacks the identifier field is not skipped: the pull that
  reads it yields the pair of the record and of the index's query result for its signature,
  as for any other record.
\<close>

theorem next_pair_without_id:
  assumes "id_name self \<notin> set (keys nrow)" and "nrow \<noteq> []"
    and "is_letter self \<or> \<not> is_text self"
    and "curr_it self = Some (nrow # rest)" and "lsh self = Some idx"
  shows "next_pair L self =
     (Inr (nrow, lsh_query L (sign L (num_perm self) (shingles self nrow)) idx),
      self\<lparr>curr_it := Some rest\<rparr>)"
  using assms(3,4,5,2) by (rule next_pair_yield)

theorem next_pair_without_id_witness:
  "id_name (example [] True False 2) \<notin> set (keys anon) \<and> anon \<noteq> [] \<and>
   fst (next_pair toy_datasketch
          (example [] True False 2\<lparr>lsh := Some [(PInt 7, [98, 99])], curr_it := Some [anon, alice]\<rparr>)) =
     Inr (anon, [PInt 7])"
proof -
  let ?s = "example [] True False 2\<lparr>lsh := Some [(PInt 7, [98, 99])], curr_it := Some [anon, alice]\<rparr>
    :: ((pyval \<times> nat list) list) blocking_record_iterator"
  have h: "id_name ?s \<notin> set (keys anon)" "anon \<noteq> []" "is_letter ?s \<or> \<not> is_text ?s"
    "curr_it ?s = Some [anon, alice]" "lsh ?s = Some [(PInt 7, [98, 99])]"
    by (simp_all add: example_def init_def anon_def keys_def)
  have s: "sign toy_datasketch (num_perm ?s) (shingles ?s anon) = [98, 99]"
    using get_min_hash_ok [OF h(3), of toy_datasketch anon]
    by (simp add: eval_defs)
  from next_pair_without_id [OF h, of toy_datasketch] s h(1,2) show ?thesis
    by (simp add: toy_datasketch_def example_def init_def)
qed

end
